theory Spec2Isabelle
  imports Complex_Main
begin

section \<open>Strings, errors and dynamic values\<close>

text \<open>
  JavaScript strings are modelled as \<^typ>\<open>string\<close>; a \<^typ>\<open>char\<close> stands for one
  code unit in the Latin-1 range, which covers every character the code under
  verification tests for explicitly.
\<close>

definition dq :: char where
  "dq = CHR 0x22"

definition quoted :: "string \<Rightarrow> string" where
  "quoted s = dq # s @ [dq]"

text \<open>The characters matched by the regular expression class \<^verbatim>\<open>\s\<close> and removed by
  \<^verbatim>\<open>String.prototype.trim\<close>: TAB, LF, VT, FF, CR, SPACE and NBSP.\<close>

definition is_space :: "char \<Rightarrow> bool" where
  "is_space c = (c \<in> set [CHR 0x09, CHR 0x0A, CHR 0x0B, CHR 0x0C, CHR 0x0D, CHR 0x20, CHR 0xA0])"

definition trim :: "string \<Rightarrow> string" where
  "trim s = rev (dropWhile is_space (rev (dropWhile is_space s)))"

datatype errname = PlainError | TypeError | ReferenceError | SyntaxError

text \<open>An exception object: its class, its message and its \<^verbatim>\<open>cause\<close>.\<close>

datatype jserror = JsError errname string "jserror option"

fun messages :: "jserror \<Rightarrow> string list" where
  "messages (JsError n m None) = [m]"
| "messages (JsError n m (Some c)) = m # messages c"

text \<open>
  Numbers are exact rationals extended by the three non-finite values of the host;
  the rounding of binary floating point is not modelled.
\<close>

datatype jsnum = Fin rat | NaN | PosInf | NegInf

datatype jsval =
    Undefined
  | Null
  | Bool bool
  | Num jsnum
  | BigInt int
  | Str string
  | DateV jsnum
  | Arr "jsval list"
  | Obj "(string \<times> jsval) list"
  | Fn string
  | Host string
  | FileSelf
  | FormulaProxy

text \<open>
  \<open>Fn\<close> is a function of the program, named; \<open>Host\<close> is a namespace object of the
  host; \<open>FileSelf\<close> is the reference of the file object to itself; \<open>FormulaProxy\<close> is
  the lazy formula namespace.
\<close>

text \<open>\<^verbatim>\<open>Boolean(value)\<close>.\<close>

fun truthy :: "jsval \<Rightarrow> bool" where
  "truthy Undefined = False"
| "truthy Null = False"
| "truthy (Bool b) = b"
| "truthy (Num (Fin r)) = (r \<noteq> 0)"
| "truthy (Num NaN) = False"
| "truthy (Num _) = True"
| "truthy (BigInt i) = (i \<noteq> 0)"
| "truthy (Str s) = (s \<noteq> [])"
| "truthy _ = True"

section \<open>Filter trees\<close>

text \<open>A filter as it arrives from the YAML parser of the base file.\<close>

datatype yaml =
    YNull
  | YBool bool
  | YNum rat
  | YStr string
  | YArr "yaml list"
  | YObj "(string \<times> yaml) list"

text \<open>The interface \<^verbatim>\<open>EvaluationState\<close>: \<^verbatim>\<open>evaluate(expression, label)\<close> either
  raises or returns a value.\<close>

record EvaluationState =
  evaluate :: "string \<Rightarrow> string \<Rightarrow> jserror + jsval"

definition filterExpressionsValid :: "(string \<times> yaml) list \<Rightarrow> bool" where
  "filterExpressionsValid compound =
     list_all (\<lambda>key. key = ''and'' \<or> key = ''or'' \<or> key = ''not'') (map fst compound)"

fun join_with :: "string \<Rightarrow> string list \<Rightarrow> string" where
  "join_with sep [] = []"
| "join_with sep [x] = x"
| "join_with sep (x # y # ys) = x @ sep @ join_with sep (y # ys)"

fun ensureFilterList :: "yaml \<Rightarrow> string \<Rightarrow> jserror + yaml list" where
  "ensureFilterList (YArr entries) description = Inr entries"
| "ensureFilterList v description =
     Inl (JsError PlainError (description @ '' must be an array.'') None)"

definition evaluateFilterLiteral :: "string \<Rightarrow> EvaluationState \<Rightarrow> string \<Rightarrow> jserror + bool" where
  "evaluateFilterLiteral literal evaluation context =
     (let trimmed = trim literal in
      if length trimmed = 0 then Inr False
      else
        let label = context @ '' expression '' @ quoted trimmed in
        case evaluate evaluation trimmed label of
          Inl e \<Rightarrow> Inl e
        | Inr result \<Rightarrow> Inr (truthy result))"

lemma size_map_of_yaml:
  "map_of kvs k = Some v \<Longrightarrow> size v < Suc (size_list (size_prod (\<lambda>_. 0) size) kvs)"
  by (induction kvs) (auto split: if_splits)

lemma ensureFilterList_Inr:
  "ensureFilterList v d = Inr entries \<Longrightarrow> v = YArr entries"
  by (cases v) auto

lemma size_filter_group:
  assumes "map_of compound k = Some v" and "ensureFilterList v d = Inr entries"
  shows "size_list size entries < size_list (size_prod (\<lambda>_. 0) size) compound"
  using size_map_of_yaml [OF assms(1)] ensureFilterList_Inr [OF assms(2)] by simp

text \<open>
  \<^verbatim>\<open>evaluateFilterNode\<close> with its three loops. A loop returns \<open>Inr True\<close> when it ran
  to its end without deciding the node, so that the caller goes on to the next group.
\<close>

function evaluateFilterNode :: "yaml \<Rightarrow> EvaluationState \<Rightarrow> string \<Rightarrow> jserror + bool"
  and and_loop :: "yaml list \<Rightarrow> EvaluationState \<Rightarrow> string \<Rightarrow> jserror + bool"
  and or_loop :: "yaml list \<Rightarrow> EvaluationState \<Rightarrow> string \<Rightarrow> jserror + bool"
  and not_loop :: "yaml list \<Rightarrow> EvaluationState \<Rightarrow> string \<Rightarrow> jserror + bool"
  and or_group :: "(string \<times> yaml) list \<Rightarrow> EvaluationState \<Rightarrow> string \<Rightarrow> jserror + bool"
  and not_group :: "(string \<times> yaml) list \<Rightarrow> EvaluationState \<Rightarrow> string \<Rightarrow> jserror + bool"
where
  "evaluateFilterNode (YStr literal) evaluation context =
     evaluateFilterLiteral literal evaluation context"
| "evaluateFilterNode YNull evaluation context =
     Inl (JsError PlainError ''Filter entry must be a string or object.'' None)"
| "evaluateFilterNode (YBool b) evaluation context =
     Inl (JsError PlainError ''Filter entry must be a string or object.'' None)"
| "evaluateFilterNode (YNum n) evaluation context =
     Inl (JsError PlainError ''Filter entry must be a string or object.'' None)"
| "evaluateFilterNode (YArr xs) evaluation context =
     Inl (JsError PlainError ''Filter entry must be a string or object.'' None)"
| "evaluateFilterNode (YObj compound) evaluation context =
     (if \<not> filterExpressionsValid compound then
        Inl (JsError PlainError
          (''Filter contains unsupported keys: '' @
             join_with '', ''
               (filter (\<lambda>key. key \<noteq> ''and'' \<and> key \<noteq> ''or'' \<and> key \<noteq> ''not'') (map fst compound)))
          None)
      else
        case map_of compound ''and'' of
          None \<Rightarrow> or_group compound evaluation context
        | Some v \<Rightarrow>
            (case ensureFilterList v (context @ '' '' @ quoted ''and'' @ '' group'') of
               Inl e \<Rightarrow> Inl e
             | Inr entries \<Rightarrow>
                 (case and_loop entries evaluation context of
                    Inl e \<Rightarrow> Inl e
                  | Inr False \<Rightarrow> Inr False
                  | Inr True \<Rightarrow> or_group compound evaluation context)))"
| "and_loop [] evaluation context = Inr True"
| "and_loop (entry # entries) evaluation context =
     (case evaluateFilterNode entry evaluation (context @ '' (and)'') of
        Inl e \<Rightarrow> Inl e
      | Inr False \<Rightarrow> Inr False
      | Inr True \<Rightarrow> and_loop entries evaluation context)"
| "or_loop [] evaluation context = Inr False"
| "or_loop (entry # entries) evaluation context =
     (case evaluateFilterNode entry evaluation (context @ '' (or)'') of
        Inl e \<Rightarrow> Inl e
      | Inr True \<Rightarrow> Inr True
      | Inr False \<Rightarrow> or_loop entries evaluation context)"
| "not_loop [] evaluation context = Inr True"
| "not_loop (entry # entries) evaluation context =
     (case evaluateFilterNode entry evaluation (context @ '' (not)'') of
        Inl e \<Rightarrow> Inl e
      | Inr True \<Rightarrow> Inr False
      | Inr False \<Rightarrow> not_loop entries evaluation context)"
| "or_group compound evaluation context =
     (case map_of compound ''or'' of
        None \<Rightarrow> not_group compound evaluation context
      | Some v \<Rightarrow>
          (case ensureFilterList v (context @ '' '' @ quoted ''or'' @ '' group'') of
             Inl e \<Rightarrow> Inl e
           | Inr entries \<Rightarrow>
               if length entries = 0 then Inr False
               else
                 (case or_loop entries evaluation context of
                    Inl e \<Rightarrow> Inl e
                  | Inr False \<Rightarrow> Inr False
                  | Inr True \<Rightarrow> not_group compound evaluation context)))"
| "not_group compound evaluation context =
     (case map_of compound ''not'' of
        None \<Rightarrow> Inr True
      | Some v \<Rightarrow>
          (case ensureFilterList v (context @ '' '' @ quoted ''not'' @ '' group'') of
             Inl e \<Rightarrow> Inl e
           | Inr entries \<Rightarrow>
               (case not_loop entries evaluation context of
                  Inl e \<Rightarrow> Inl e
                | Inr False \<Rightarrow> Inr False
                | Inr True \<Rightarrow> Inr True)))"
  by pat_completeness auto

termination
  by (relation "measure (\<lambda>x. case x of
        Inl (Inl (node, _)) \<Rightarrow> 3 * size node
      | Inl (Inr (Inl (entries, _))) \<Rightarrow> 3 * size_list size entries
      | Inl (Inr (Inr (entries, _))) \<Rightarrow> 3 * size_list size entries
      | Inr (Inl (entries, _)) \<Rightarrow> 3 * size_list size entries
      | Inr (Inr (Inl (compound, _))) \<Rightarrow> 3 * size_list (size_prod (\<lambda>_. 0) size) compound + 2
      | Inr (Inr (Inr (compound, _))) \<Rightarrow> 3 * size_list (size_prod (\<lambda>_. 0) size) compound + 1)")
    (auto dest: size_filter_group)

text \<open>\<^verbatim>\<open>matchesFilter\<close>; \<open>None\<close> is an \<^verbatim>\<open>undefined\<close> filter, \<open>Some YNull\<close> is \<^verbatim>\<open>null\<close>.\<close>

fun matchesFilter :: "yaml option \<Rightarrow> EvaluationState \<Rightarrow> string \<Rightarrow> jserror + bool" where
  "matchesFilter None evaluation context = Inr True"
| "matchesFilter (Some YNull) evaluation context = Inr True"
| "matchesFilter (Some f) evaluation context =
     (case evaluateFilterNode f evaluation context of
        Inl e \<Rightarrow> Inl (JsError PlainError (''Failed to process '' @ context) (Some e))
      | Inr b \<Rightarrow> Inr b)"


text \<open>The members of a group; an absent group has none.\<close>

definition members :: "(string \<times> yaml) list \<Rightarrow> string \<Rightarrow> yaml list" where
  "members compound k = (case map_of compound k of Some (YArr entries) \<Rightarrow> entries | _ \<Rightarrow> [])"





definition not_array_failure :: "string \<Rightarrow> string \<Rightarrow> jserror" where
  "not_array_failure context k =
     JsError PlainError (''Failed to process '' @ context)
       (Some (JsError PlainError (context @ '' '' @ quoted k @ '' group must be an array.'') None))"

definition and_passes :: "(string \<times> yaml) list \<Rightarrow> EvaluationState \<Rightarrow> string \<Rightarrow> bool" where
  "and_passes c s context =
     (case map_of c ''and'' of
        None \<Rightarrow> True
      | Some (YArr es) \<Rightarrow> \<forall>m \<in> set es. evaluateFilterNode m s (context @ '' (and)'') = Inr True
      | Some _ \<Rightarrow> False)"

definition or_passes :: "(string \<times> yaml) list \<Rightarrow> EvaluationState \<Rightarrow> string \<Rightarrow> bool" where
  "or_passes c s context =
     (case map_of c ''or'' of
        None \<Rightarrow> True
      | Some (YArr es) \<Rightarrow>
          (\<forall>m \<in> set es. \<not> isl (evaluateFilterNode m s (context @ '' (or)''))) \<and>
          (\<exists>m \<in> set es. evaluateFilterNode m s (context @ '' (or)'') = Inr True)
      | Some _ \<Rightarrow> False)"


definition raising_state :: EvaluationState where
  "raising_state = \<lparr> evaluate = (\<lambda>expression label. Inl (JsError SyntaxError ''unreachable'' None)) \<rparr>"


section \<open>Duration parser\<close>

definition MILLISECONDS_IN_SECOND :: rat where "MILLISECONDS_IN_SECOND = 1000"
definition MILLISECONDS_IN_MINUTE :: rat where "MILLISECONDS_IN_MINUTE = 60 * MILLISECONDS_IN_SECOND"
definition MILLISECONDS_IN_HOUR :: rat where "MILLISECONDS_IN_HOUR = 60 * MILLISECONDS_IN_MINUTE"
definition MILLISECONDS_IN_DAY :: rat where "MILLISECONDS_IN_DAY = 24 * MILLISECONDS_IN_HOUR"
definition MILLISECONDS_IN_WEEK :: rat where "MILLISECONDS_IN_WEEK = 7 * MILLISECONDS_IN_DAY"
definition MILLISECONDS_IN_MONTH :: rat where "MILLISECONDS_IN_MONTH = 30 * MILLISECONDS_IN_DAY"
definition MILLISECONDS_IN_YEAR :: rat where "MILLISECONDS_IN_YEAR = 365 * MILLISECONDS_IN_DAY"

definition DURATION_UNIT_MULTIPLIERS :: "(string \<times> rat) list" where
  "DURATION_UNIT_MULTIPLIERS =
    [(''y'', MILLISECONDS_IN_YEAR),
     (''year'', MILLISECONDS_IN_YEAR),
     (''years'', MILLISECONDS_IN_YEAR),
     (''M'', MILLISECONDS_IN_MONTH),
     (''month'', MILLISECONDS_IN_MONTH),
     (''months'', MILLISECONDS_IN_MONTH),
     (''w'', MILLISECONDS_IN_WEEK),
     (''week'', MILLISECONDS_IN_WEEK),
     (''weeks'', MILLISECONDS_IN_WEEK),
     (''d'', MILLISECONDS_IN_DAY),
     (''day'', MILLISECONDS_IN_DAY),
     (''days'', MILLISECONDS_IN_DAY),
     (''h'', MILLISECONDS_IN_HOUR),
     (''hour'', MILLISECONDS_IN_HOUR),
     (''hours'', MILLISECONDS_IN_HOUR),
     (''m'', MILLISECONDS_IN_MINUTE),
     (''min'', MILLISECONDS_IN_MINUTE),
     (''mins'', MILLISECONDS_IN_MINUTE),
     (''minute'', MILLISECONDS_IN_MINUTE),
     (''minutes'', MILLISECONDS_IN_MINUTE),
     (''s'', MILLISECONDS_IN_SECOND),
     (''sec'', MILLISECONDS_IN_SECOND),
     (''secs'', MILLISECONDS_IN_SECOND),
     (''second'', MILLISECONDS_IN_SECOND),
     (''seconds'', MILLISECONDS_IN_SECOND)]"

definition is_digit :: "char \<Rightarrow> bool" where
  "is_digit c = (c \<in> set ''0123456789'')"

definition is_upper :: "char \<Rightarrow> bool" where
  "is_upper c = (c \<in> set ''ABCDEFGHIJKLMNOPQRSTUVWXYZ'')"

definition is_lower :: "char \<Rightarrow> bool" where
  "is_lower c = (c \<in> set ''abcdefghijklmnopqrstuvwxyz'')"

definition lower_char :: "char \<Rightarrow> char" where
  "lower_char c = (if is_upper c then char_of (of_char c + (32::nat)) else c)"

text \<open>\<^verbatim>\<open>toLowerCase\<close> on the unit token, which consists of ASCII letters.\<close>

definition toLowerCase :: "string \<Rightarrow> string" where
  "toLowerCase s = map lower_char s"

text \<open>
  \<^verbatim>\<open>DURATION_PATTERN\<close> carries the flags \<^verbatim>\<open>g\<close> and \<^verbatim>\<open>i\<close>. Under \<^verbatim>\<open>i\<close> a pattern
  character matches an input character when both are the same letter in either case.
  The alternatives of the unit group are listed in the order of the pattern; the flag
  of an entry says that the stem is followed by \<^verbatim>\<open>s?\<close>.
\<close>

definition ci_eq :: "char \<Rightarrow> char \<Rightarrow> bool" where
  "ci_eq p c = (lower_char p = lower_char c)"

definition ci_prefix :: "string \<Rightarrow> string \<Rightarrow> bool" where
  "ci_prefix stem s = (length stem \<le> length s \<and> list_all2 ci_eq stem (take (length stem) s))"

definition unit_alternatives :: "(string \<times> bool) list" where
  "unit_alternatives =
    [(''year'', True), (''y'', False), (''month'', True), (''M'', False),
     (''week'', True), (''w'', False), (''day'', True), (''d'', False),
     (''hour'', True), (''h'', False), (''minute'', True), (''min'', True),
     (''min'', False), (''m'', False), (''second'', True), (''sec'', True),
     (''sec'', False), (''s'', False)]"

text \<open>The first alternative that matches at the head of the input wins; the result is
  the matched text and the input after it.\<close>

fun match_unit :: "(string \<times> bool) list \<Rightarrow> string \<Rightarrow> (string \<times> string) option" where
  "match_unit [] s = None"
| "match_unit ((stem, plural) # alts) s =
     (if ci_prefix stem s then
        (let n = length stem in
         if plural \<and> ci_prefix ''s'' (drop n s) then Some (take (Suc n) s, drop (Suc n) s)
         else Some (take n s, drop n s))
      else match_unit alts s)"

text \<open>
  One attempt of the pattern at the head of the input: an optional minus sign, the
  longest run of digits, the longest fraction if there is one, the longest run of
  whitespace, a unit. The greedy choices are the only ones that can succeed: after a
  shorter run of digits the next character is a digit, after a dropped fraction it is a
  dot, after a shorter run of whitespace it is whitespace, and no unit starts with any
  of these. The result holds the two groups and the input after the match.
\<close>

definition match_here :: "string \<Rightarrow> (string \<times> string \<times> string) option" where
  "match_here s =
     (let sign = (if s \<noteq> [] \<and> hd s = CHR ''-'' then ''-'' else []);
          s1 = drop (length sign) s;
          ds = takeWhile is_digit s1;
          s2 = dropWhile is_digit s1
      in if ds = [] then None
         else
           let fs = (if s2 \<noteq> [] \<and> hd s2 = CHR ''.'' then takeWhile is_digit (tl s2) else []);
               frac = (if fs = [] then [] else CHR ''.'' # fs);
               s3 = drop (length frac) s2;
               s4 = dropWhile is_space s3
           in case match_unit unit_alternatives s4 of
                None \<Rightarrow> None
              | Some (unit, rest) \<Rightarrow> Some (sign @ ds @ frac, unit, rest))"

text \<open>\<^verbatim>\<open>DURATION_PATTERN.exec\<close> on the input that starts at \<^verbatim>\<open>lastIndex\<close>: the leftmost
  match. The result is the text skipped before the match, the two groups and the input
  after the match (the new \<^verbatim>\<open>lastIndex\<close>).\<close>

fun exec :: "string \<Rightarrow> (string \<times> string \<times> string \<times> string) option" where
  "exec [] = None"
| "exec (c # cs) =
     (case match_here (c # cs) of
        Some (amount, unit, rest) \<Rightarrow> Some ([], amount, unit, rest)
      | None \<Rightarrow>
          (case exec cs of
             None \<Rightarrow> None
           | Some (between, amount, unit, rest) \<Rightarrow> Some (c # between, amount, unit, rest)))"

definition digit_value :: "char \<Rightarrow> nat" where
  "digit_value c = of_char c - 48"

definition digits_value :: "string \<Rightarrow> nat" where
  "digits_value ds = foldl (\<lambda>n c. 10 * n + digit_value c) 0 ds"

text \<open>\<^verbatim>\<open>Number.parseFloat\<close> on the first group, a text of the shape
  \<^verbatim>\<open>-?\d+(\.\d+)?\<close>, as an exact rational.\<close>

definition parseFloat_amount :: "string \<Rightarrow> jsnum" where
  "parseFloat_amount a =
     (let neg = (a \<noteq> [] \<and> hd a = CHR ''-'');
          body = (if neg then tl a else a);
          ip = takeWhile is_digit body;
          fp = drop (Suc (length ip)) body;
          v = of_nat (digits_value ip) + of_nat (digits_value fp) / 10 ^ length fp
      in Fin (if neg then - v else v))"

definition has_non_space :: "string \<Rightarrow> bool" where
  "has_non_space s = list_ex (\<lambda>c. \<not> is_space c) s"

lemma match_unit_shorter:
  assumes "\<forall>alt \<in> set alts. fst alt \<noteq> []"
    and "match_unit alts s = Some (unit, rest)"
  shows "length rest < length s"
  using assms
proof (induction alts)
  case Nil
  then show ?case by simp
next
  case (Cons alt alts)
  obtain stem plural where alt: "alt = (stem, plural)" by (cases alt)
  show ?case
  proof (cases "ci_prefix stem s")
    case True
    have st: "0 < length stem" using Cons.prems(1) alt by simp
    moreover from True have "length stem \<le> length s"
      by (simp add: ci_prefix_def)
    ultimately have pos: "0 < length s" by linarith
    from Cons.prems(2) alt True
    have "rest = drop (length stem) s \<or> rest = drop (Suc (length stem)) s"
      by (auto simp: Let_def split: if_splits)
    then show ?thesis
    proof
      assume "rest = drop (length stem) s"
      then show ?thesis using diff_less [OF st pos] by simp
    next
      assume "rest = drop (Suc (length stem)) s"
      then show ?thesis using diff_less [OF zero_less_Suc pos] by simp
    qed
  next
    case False
    with Cons alt show ?thesis by simp
  qed
qed

lemma match_here_shorter:
  assumes "match_here s = Some (amount, unit, rest)"
  shows "length rest < length s"
proof -
  define sign where "sign = (if s \<noteq> [] \<and> hd s = CHR ''-'' then ''-'' else [])"
  define s2 where "s2 = dropWhile is_digit (drop (length sign) s)"
  define fs where "fs = (if s2 \<noteq> [] \<and> hd s2 = CHR ''.'' then takeWhile is_digit (tl s2) else [])"
  define frac where "frac = (if fs = [] then [] else CHR ''.'' # fs)"
  define s4 where "s4 = dropWhile is_space (drop (length frac) s2)"
  have m: "match_unit unit_alternatives s4 = Some (unit, rest)"
    using assms unfolding match_here_def Let_def sign_def s2_def fs_def frac_def s4_def
    by (auto split: if_splits option.splits)
  have "length s4 \<le> length (drop (length frac) s2)"
    unfolding s4_def by (rule length_dropWhile_le)
  also have "\<dots> \<le> length s2" by simp
  also have "\<dots> \<le> length (drop (length sign) s)"
    unfolding s2_def by (rule length_dropWhile_le)
  also have "\<dots> \<le> length s" by simp
  finally have l: "length s4 \<le> length s" .
  have "\<forall>alt \<in> set unit_alternatives. fst alt \<noteq> []"
    by (simp add: unit_alternatives_def)
  from match_unit_shorter [OF this m] l show ?thesis by simp
qed

lemma exec_shorter:
  "exec s = Some (between, amount, unit, rest) \<Longrightarrow> length rest < length s"
proof (induction s arbitrary: between)
  case Nil
  then show ?case by simp
next
  case (Cons c cs)
  show ?case
  proof (cases "match_here (c # cs)")
    case None
    with Cons.prems obtain b where "exec cs = Some (b, amount, unit, rest)"
      by (auto split: option.splits)
    from Cons.IH [OF this] show ?thesis by simp
  next
    case (Some r)
    with Cons.prems have "match_here (c # cs) = Some (amount, unit, rest)"
      by (cases r) auto
    from match_here_shorter [OF this] show ?thesis .
  qed
qed

text \<open>The loop of \<^verbatim>\<open>parseDuration\<close>. The first argument is the part of the trimmed input
  that starts at \<^verbatim>\<open>lastIndex\<close>.\<close>

function duration_loop :: "string \<Rightarrow> string \<Rightarrow> rat \<Rightarrow> bool \<Rightarrow> jserror + rat" where
  "duration_loop remaining input total_ms matched =
     (case exec remaining of
        None \<Rightarrow>
          if \<not> matched then
            Inl (JsError PlainError (''Unable to parse duration string '' @ quoted input @ ''.'') None)
          else if remaining \<noteq> [] \<and> has_non_space remaining then
            Inl (JsError PlainError
              (''Invalid trailing content '' @ quoted (trim remaining) @ '' in '' @ quoted input @ ''.'')
              None)
          else Inr total_ms
      | Some (between, amount_text, unitRaw, rest) \<Rightarrow>
          if between \<noteq> [] \<and> has_non_space between then
            Inl (JsError PlainError
              (''Invalid duration segment '' @ quoted (trim between) @ '' in '' @ quoted input @ ''.'')
              None)
          else
            (case parseFloat_amount amount_text of
               Fin amount \<Rightarrow>
                 (case (case map_of DURATION_UNIT_MULTIPLIERS unitRaw of
                          Some m \<Rightarrow> Some m
                        | None \<Rightarrow> map_of DURATION_UNIT_MULTIPLIERS (toLowerCase unitRaw)) of
                    None \<Rightarrow>
                      Inl (JsError PlainError
                        (''Unsupported duration unit '' @ quoted unitRaw @ '' in '' @ quoted input @ ''.'')
                        None)
                  | Some multiplier \<Rightarrow>
                      duration_loop rest input (total_ms + amount * multiplier) True)
             | _ \<Rightarrow>
                 Inl (JsError PlainError
                   (''Invalid duration value '' @ quoted amount_text @ '' in '' @ quoted input @ ''.'')
                   None)))"
  by pat_completeness auto
termination
  by (relation "measure (\<lambda>(remaining, input, total_ms, matched). length remaining)")
     (auto dest: exec_shorter)

definition parseDuration :: "string \<Rightarrow> jserror + rat" where
  "parseDuration input =
     (let trimmed = trim input in
      if length trimmed = 0 then
        Inl (JsError PlainError ''duration() requires a non-empty string.'' None)
      else duration_loop trimmed input 0 False)"


section \<open>Numbers and dates\<close>

text \<open>Arithmetic of the host on numbers, without rounding.\<close>

fun num_neg :: "jsnum \<Rightarrow> jsnum" where
  "num_neg (Fin a) = Fin (- a)"
| "num_neg NaN = NaN"
| "num_neg PosInf = NegInf"
| "num_neg NegInf = PosInf"



fun isFinite :: "jsnum \<Rightarrow> bool" where
  "isFinite (Fin a) = True"
| "isFinite x = False"

text \<open>Digits of a given base; \<open>None\<close> when a character is not a digit of the base.\<close>

definition based_digit :: "nat \<Rightarrow> char \<Rightarrow> nat option" where
  "based_digit base c =
     (let v = (if is_digit c then of_char c - 48
               else if is_lower c then of_char c - 87
               else if is_upper c then of_char c - 55
               else 99)
      in if v < base then Some v else None)"

fun based_value :: "nat \<Rightarrow> nat \<Rightarrow> string \<Rightarrow> nat option" where
  "based_value base acc [] = Some acc"
| "based_value base acc (c # cs) =
     (case based_digit base c of
        None \<Rightarrow> None
      | Some v \<Rightarrow> based_value base (base * acc + v) cs)"

definition pow10 :: "int \<Rightarrow> rat" where
  "pow10 e = (if 0 \<le> e then 10 ^ nat e else 1 / 10 ^ nat (- e))"

text \<open>An unsigned decimal literal with optional fraction and exponent; the whole text
  has to be consumed.\<close>

definition unsigned_decimal :: "string \<Rightarrow> jsnum" where
  "unsigned_decimal body =
     (let ip = takeWhile is_digit body;
          r1 = dropWhile is_digit body;
          dot = (r1 \<noteq> [] \<and> hd r1 = CHR ''.'');
          fp = (if dot then takeWhile is_digit (tl r1) else []);
          r2 = (if dot then dropWhile is_digit (tl r1) else r1);
          mantissa = of_nat (digits_value ip) + of_nat (digits_value fp) / 10 ^ length fp
      in if ip = [] \<and> fp = [] then NaN
         else if r2 = [] then Fin mantissa
         else if hd r2 = CHR ''e'' \<or> hd r2 = CHR ''E'' then
           (let r3 = tl r2;
                eneg = (r3 \<noteq> [] \<and> hd r3 = CHR ''-'');
                r4 = (if r3 \<noteq> [] \<and> (hd r3 = CHR ''-'' \<or> hd r3 = CHR ''+'') then tl r3 else r3)
            in if r4 = [] \<or> \<not> list_all is_digit r4 then NaN
               else Fin (mantissa * pow10 (if eneg then - int (digits_value r4) else int (digits_value r4))))
         else NaN)"

text \<open>
  \<^verbatim>\<open>Number(string)\<close> of the host: surrounding whitespace is ignored, the empty text is
  0, then a binary, octal or hexadecimal integer, or a signed decimal literal or
  \<^verbatim>\<open>Infinity\<close>; anything else is \<^verbatim>\<open>NaN\<close>.
\<close>

definition StringToNumber :: "string \<Rightarrow> jsnum" where
  "StringToNumber s =
     (let t = trim s in
      if t = [] then Fin 0
      else if length t > 2 \<and> hd t = CHR ''0'' \<and> t ! 1 \<in> set ''xXoObB'' then
        (case based_value (if t ! 1 \<in> set ''xX'' then 16 else if t ! 1 \<in> set ''oO'' then 8 else 2)
                0 (drop 2 t) of
           None \<Rightarrow> NaN
         | Some n \<Rightarrow> Fin (of_nat n))
      else
        (let neg = (hd t = CHR ''-'');
             body = (if hd t = CHR ''-'' \<or> hd t = CHR ''+'' then tl t else t)
         in if body = ''Infinity'' then (if neg then NegInf else PosInf)
            else if neg then num_neg (unsigned_decimal body) else unsigned_decimal body))"

text \<open>
  \<^verbatim>\<open>Number(value)\<close> on the value domain. An array is converted through its text: the
  empty array is 0, an array of one element is the number of the text of that element,
  a longer array has a comma in its text. Plain objects and functions have no numeric
  text. The formula proxy offers no conversion method, and the host raises.
\<close>

fun js_Number :: "jsval \<Rightarrow> jserror + jsnum" where
  "js_Number Undefined = Inr NaN"
| "js_Number Null = Inr (Fin 0)"
| "js_Number (Bool b) = Inr (Fin (if b then 1 else 0))"
| "js_Number (Num n) = Inr n"
| "js_Number (BigInt i) = Inr (Fin (of_int i))"
| "js_Number (Str s) = Inr (StringToNumber s)"
| "js_Number (DateV t) = Inr t"
| "js_Number (Arr xs) =
     (case xs of
        [] \<Rightarrow> Inr (Fin 0)
      | [x] \<Rightarrow>
          (case x of
             Undefined \<Rightarrow> Inr (Fin 0)
           | Null \<Rightarrow> Inr (Fin 0)
           | Num n \<Rightarrow> Inr n
           | BigInt i \<Rightarrow> Inr (Fin (of_int i))
           | Str s \<Rightarrow> Inr (StringToNumber s)
           | Arr ys \<Rightarrow> js_Number x
           | FormulaProxy \<Rightarrow>
               Inl (JsError TypeError ''Cannot convert object to primitive value'' None)
           | _ \<Rightarrow> Inr NaN)
      | _ \<Rightarrow> Inr NaN)"
| "js_Number (Obj kvs) = Inr NaN"
| "js_Number (Fn f) = Inr NaN"
| "js_Number (Host h) = Inr NaN"
| "js_Number FileSelf = Inr NaN"
| "js_Number FormulaProxy =
     Inl (JsError TypeError ''Cannot convert object to primitive value'' None)"

subsection \<open>The global function \<^verbatim>\<open>number\<close>\<close>

fun normalizeNumber :: "jsval \<Rightarrow> jserror + jsnum" where
  "normalizeNumber (Num n) =
     (if \<not> isFinite n then
        Inl (JsError PlainError ''number() requires finite numeric values.'' None)
      else Inr n)"
| "normalizeNumber (DateV t) = Inr t"
| "normalizeNumber (Bool b) = Inr (Fin (if b then 1 else 0))"
| "normalizeNumber (Str input) =
     (let trimmed = trim input in
      if length trimmed = 0 then
        Inl (JsError PlainError ''number() cannot parse an empty string.'' None)
      else
        let parsed = StringToNumber trimmed in
        if \<not> isFinite parsed then
          Inl (JsError PlainError (''Unable to parse number from '' @ quoted input @ ''.'') None)
        else Inr parsed)"
| "normalizeNumber Null =
     Inl (JsError PlainError ''number() cannot convert null or undefined.'' None)"
| "normalizeNumber Undefined =
     Inl (JsError PlainError ''number() cannot convert null or undefined.'' None)"
| "normalizeNumber input =
     (case js_Number input of
        Inl e \<Rightarrow> Inl e
      | Inr primitive \<Rightarrow>
          if \<not> isFinite primitive then
            Inl (JsError PlainError ''number() requires convertible numeric values.'' None)
          else Inr primitive)"

subsection \<open>Date arithmetic\<close>








subsection \<open>ISO 8601 text of a time value\<close>









section \<open>Scope of a file\<close>

definition RESERVED_IDENTIFIERS :: "string list" where
  "RESERVED_IDENTIFIERS =
     [''arguments'', ''eval'', ''prototype'', ''constructor'', ''__proto__'', ''super'',
      ''globalThis'', ''window'', ''if'']"

definition GLOBAL_FUNCTION_ALIASES :: "(string \<times> string) list" where
  "GLOBAL_FUNCTION_ALIASES = [(''if'', ''_if''), (''file'', ''_fileFn'')]"

text \<open>\<^verbatim>\<open>IDENTIFIER_CHAR_PATTERN\<close> and \<^verbatim>\<open>IDENTIFIER_PATTERN\<close>.\<close>

definition identifier_char :: "char \<Rightarrow> bool" where
  "identifier_char c = (is_upper c \<or> is_lower c \<or> is_digit c \<or> c = CHR ''_'' \<or> c = CHR ''$'')"

definition identifier_start :: "char \<Rightarrow> bool" where
  "identifier_start c = (is_upper c \<or> is_lower c \<or> c = CHR ''_'' \<or> c = CHR ''$'')"

definition IDENTIFIER_PATTERN :: "string \<Rightarrow> bool" where
  "IDENTIFIER_PATTERN s = (s \<noteq> [] \<and> identifier_start (hd s) \<and> list_all identifier_char (tl s))"

definition isValidIdentifier :: "string \<Rightarrow> bool" where
  "isValidIdentifier identifier =
     (IDENTIFIER_PATTERN identifier \<and> identifier \<notin> set RESERVED_IDENTIFIERS)"

definition BUILTIN_SCOPE_ENTRIES :: "(string \<times> jsval) list" where
  "BUILTIN_SCOPE_ENTRIES =
     map (\<lambda>name. (name, Host name))
       [''Array'', ''Boolean'', ''Date'', ''JSON'', ''Map'', ''Math'', ''Number'', ''Object'',
        ''Reflect'', ''RegExp'', ''Set'', ''String'', ''Symbol'', ''WeakMap'', ''WeakSet'',
        ''BigInt'']"

text \<open>\<^verbatim>\<open>createGlobalFunctionScope\<close>: the global functions in the order of the object
  literal.\<close>

definition createGlobalFunctionScope :: "(string \<times> jsval) list" where
  "createGlobalFunctionScope =
     map (\<lambda>name. (name, Fn name))
       [''today'', ''now'', ''date'', ''duration'', ''file'', ''if'', ''image'', ''icon'',
        ''link'', ''list'', ''max'', ''min'', ''number'']"

text \<open>A scope is an object without prototype: own properties only.\<close>

type_synonym ScopeValues = "(string \<times> jsval) list"

definition hasScopeIdentifier :: "ScopeValues \<Rightarrow> string \<Rightarrow> bool" where
  "hasScopeIdentifier scope name = (map_of scope name \<noteq> None)"

text \<open>The assignment \<^verbatim>\<open>scope[key] = value\<close>.\<close>

fun assign :: "string \<Rightarrow> jsval \<Rightarrow> ScopeValues \<Rightarrow> ScopeValues" where
  "assign key v [] = [(key, v)]"
| "assign key v ((k, w) # rest) =
     (if k = key then (key, v) # rest else (k, w) # assign key v rest)"

record FileStat =
  stat_size :: rat
  stat_birthtime :: jsval
  stat_mtime :: jsval
  stat_ctime :: jsval

record VaultFile =
  file_path :: string
  relativePath :: string
  file_name :: string
  file_ext :: string
  file_folder :: string
  file_stat :: FileStat
  frontmatter :: "(string \<times> jsval) list option"
  metadata :: "(string \<times> jsval) list option"
  properties :: "(string \<times> jsval) list option"
  file_tags :: "string list"
  file_links :: "jsval list"
  file_embeds :: "jsval list"
  backlinks :: "string list"

text \<open>The operator \<^verbatim>\<open>??\<close>.\<close>

definition nullish_or :: "jsval \<Rightarrow> jsval \<Rightarrow> jsval" where
  "nullish_or a b = (if a = Null \<or> a = Undefined then b else a)"

definition or_empty :: "(string \<times> jsval) list option \<Rightarrow> (string \<times> jsval) list" where
  "or_empty m = (case m of None \<Rightarrow> [] | Some kvs \<Rightarrow> kvs)"

text \<open>\<^verbatim>\<open>createFileExpression\<close>: the file object with its data and its five methods. The
  fields of the records carry a prefix where the plain name is taken in HOL.\<close>

definition createFileExpression :: "VaultFile \<Rightarrow> jsval" where
  "createFileExpression file =
     Obj [(''backlinks'', Arr (map Str (backlinks file))),
          (''ctime'', nullish_or (stat_birthtime (file_stat file)) (nullish_or (stat_ctime (file_stat file)) Undefined)),
          (''embeds'', Arr (file_embeds file)),
          (''ext'', Str (file_ext file)),
          (''file'', FileSelf),
          (''folder'', Str (file_folder file)),
          (''links'', Arr (file_links file)),
          (''mtime'', nullish_or (stat_mtime (file_stat file)) Undefined),
          (''name'', Str (file_name file)),
          (''path'', Str (relativePath file)),
          (''properties'', Obj (or_empty (properties file))),
          (''size'', Num (Fin (stat_size (file_stat file)))),
          (''tags'', Arr (map Str (file_tags file))),
          (''asLink'', Fn ''file.asLink''),
          (''hasLink'', Fn ''file.hasLink''),
          (''hasProperty'', Fn ''file.hasProperty''),
          (''hasTag'', Fn ''file.hasTag''),
          (''inFolder'', Fn ''file.inFolder'')]"

text \<open>The three loops of \<^verbatim>\<open>buildEvaluationState\<close> that fill the scope.\<close>

definition promote_frontmatter :: "(string \<times> jsval) list \<Rightarrow> string list \<Rightarrow> ScopeValues \<Rightarrow> ScopeValues" where
  "promote_frontmatter note globalFunctionKeys scope =
     foldl (\<lambda>scope (key, v).
              if \<not> hasScopeIdentifier scope key \<and> isValidIdentifier key \<and>
                 key \<notin> set globalFunctionKeys
              then assign key v scope else scope)
       scope note"

definition bind_global_functions :: "(string \<times> jsval) list \<Rightarrow> ScopeValues \<Rightarrow> ScopeValues" where
  "bind_global_functions globalFunctions scope =
     foldl (\<lambda>scope (key, v).
              let scope1 = (if \<not> hasScopeIdentifier scope key then assign key v scope else scope)
              in case map_of GLOBAL_FUNCTION_ALIASES key of
                   None \<Rightarrow> scope1
                 | Some alias \<Rightarrow>
                     if \<not> hasScopeIdentifier scope1 alias then assign alias v scope1 else scope1)
       scope globalFunctions"

definition bind_builtins :: "ScopeValues \<Rightarrow> ScopeValues" where
  "bind_builtins scope =
     foldl (\<lambda>scope (key, v). if \<not> hasScopeIdentifier scope key then assign key v scope else scope)
       scope BUILTIN_SCOPE_ENTRIES"

text \<open>The scope that \<^verbatim>\<open>buildEvaluationState\<close> returns.\<close>

definition build_scope :: "VaultFile \<Rightarrow> ScopeValues" where
  "build_scope file =
     (let note = or_empty (frontmatter file);
          metadata_v = or_empty (metadata file);
          properties_v = or_empty (properties file);
          frontmatter_v = or_empty (frontmatter file);
          scope0 = assign ''properties'' (Obj properties_v)
                    (assign ''note'' (Obj note)
                      (assign ''metadata'' (Obj metadata_v)
                        (assign ''frontmatter'' (Obj frontmatter_v)
                          (assign ''file'' (createFileExpression file) []))));
          globalFunctions = createGlobalFunctionScope;
          globalFunctionKeys = map fst globalFunctions;
          scope1 = promote_frontmatter note globalFunctionKeys scope0;
          scope2 = bind_global_functions globalFunctions scope1;
          scope3 = bind_builtins scope2
      in assign ''formula'' FormulaProxy scope3)"

definition evaluateIdentifier :: "string \<Rightarrow> ScopeValues \<Rightarrow> jserror + jsval" where
  "evaluateIdentifier name scope =
     (if hasScopeIdentifier scope name then Inr (the (map_of scope name))
      else Inl (JsError ReferenceError (quoted name @ '' is not defined'') None))"

text \<open>The entries of the scope by layer, for stating the precedence: the five fixed
  names, the frontmatter keys that may be promoted, the global functions with their
  aliases.\<close>

definition fixed_entries :: "VaultFile \<Rightarrow> (string \<times> jsval) list" where
  "fixed_entries file =
     [(''file'', createFileExpression file),
      (''frontmatter'', Obj (or_empty (frontmatter file))),
      (''metadata'', Obj (or_empty (metadata file))),
      (''note'', Obj (or_empty (frontmatter file))),
      (''properties'', Obj (or_empty (properties file)))]"

definition promotable :: "string \<Rightarrow> bool" where
  "promotable key =
     (isValidIdentifier key \<and> key \<notin> set (map fst createGlobalFunctionScope))"

definition global_entries :: "(string \<times> jsval) list" where
  "global_entries =
     concat (map (\<lambda>(key, v).
                    (key, v) # (case map_of GLOBAL_FUNCTION_ALIASES key of
                                  None \<Rightarrow> []
                                | Some alias \<Rightarrow> [(alias, v)]))
               createGlobalFunctionScope)"

definition first_of :: "'a option \<Rightarrow> 'a option \<Rightarrow> 'a option" where
  "first_of a b = (case a of Some v \<Rightarrow> Some v | None \<Rightarrow> b)"

definition math_file :: VaultFile where
  "math_file =
     \<lparr> file_path = ''/vault/note.md'', relativePath = ''note.md'', file_name = ''note'',
       file_ext = ''md'', file_folder = ''.'',
       file_stat = \<lparr> stat_size = 0, stat_birthtime = Null, stat_mtime = Null, stat_ctime = Null \<rparr>,
       frontmatter = Some [(''Math'', Str ''algebra''), (''status'', Str ''open''),
                           (''if'', Str ''never'')],
       metadata = None, properties = None, file_tags = [], file_links = [], file_embeds = [],
       backlinks = [] \<rparr>"

definition date_file :: VaultFile where
  "date_file = math_file \<lparr> frontmatter := Some [(''Date'', Num (Fin 5))] \<rparr>"

section \<open>Source rewriting before parsing\<close>

definition backslash :: char where "backslash = CHR 0x5C"
definition single_quote :: char where "single_quote = CHR 0x27"
definition backtick :: char where "backtick = CHR 0x60"

text \<open>\<^verbatim>\<open>expression[i]\<close>; \<open>None\<close> is \<^verbatim>\<open>undefined\<close>, also for the index -1 before the first
  character.\<close>

definition char_at :: "string \<Rightarrow> nat \<Rightarrow> char option" where
  "char_at expression i = (if i < length expression then Some (expression ! i) else None)"

definition char_before :: "string \<Rightarrow> nat \<Rightarrow> char option" where
  "char_before expression i = (if i = 0 then None else char_at expression (i - 1))"

fun isIdentifierCharacter :: "char option \<Rightarrow> bool" where
  "isIdentifierCharacter None = False"
| "isIdentifierCharacter (Some c) = identifier_char c"

definition startsWith :: "string \<Rightarrow> string \<Rightarrow> nat \<Rightarrow> bool" where
  "startsWith expression name i = (take (length name) (drop i expression) = name)"

text \<open>The inner loop that moves \<^verbatim>\<open>probe\<close> over whitespace.\<close>

function skip_space :: "string \<Rightarrow> nat \<Rightarrow> nat" where
  "skip_space expression probe =
     (if probe < length expression \<and> is_space (expression ! probe)
      then skip_space expression (probe + 1) else probe)"
  by pat_completeness auto
termination
  by (relation "measure (\<lambda>(expression, probe). length expression - probe)") auto

declare skip_space.simps [simp del]

text \<open>The loop over the entries of \<^verbatim>\<open>GLOBAL_FUNCTION_ALIASES\<close> at one index: the entry
  that is replaced there, if any.\<close>

fun find_alias :: "(string \<times> string) list \<Rightarrow> string \<Rightarrow> nat \<Rightarrow> (string \<times> string) option" where
  "find_alias [] expression index = None"
| "find_alias ((name, alias) # entries) expression index =
     (if \<not> startsWith expression name index then find_alias entries expression index
      else
        let previousChar = char_before expression index;
            nextChar = char_at expression (index + length name)
        in if isIdentifierCharacter previousChar \<or> previousChar = Some CHR ''.'' \<or>
              isIdentifierCharacter nextChar
           then find_alias entries expression index
           else
             let probe = skip_space expression (index + length name)
             in if char_at expression probe = Some CHR ''(''
                then Some (name, alias)
                else find_alias entries expression index)"

lemma find_alias_name:
  "find_alias entries expression index = Some (name, alias) \<Longrightarrow> (name, alias) \<in> set entries"
  by (induction entries) (auto simp: Let_def split: if_splits)

lemma find_alias_progress:
  assumes "find_alias GLOBAL_FUNCTION_ALIASES expression index = Some (name, alias)"
    and "index < length expression"
  shows "length expression - (index + length name) < length expression - index"
proof -
  have "0 < length name"
    using find_alias_name [OF assms(1)] by (auto simp: GLOBAL_FUNCTION_ALIASES_def)
  with assms(2) show ?thesis by linarith
qed

text \<open>The state of the scanner: the three quote flags and the escape flag.\<close>

record scan_flags =
  inSingle :: bool
  inDouble :: bool
  inTemplate :: bool
  escaping :: bool

function normalize_loop :: "string \<Rightarrow> nat \<Rightarrow> scan_flags \<Rightarrow> string \<Rightarrow> string" where
  "normalize_loop expression index fl result =
     (if index < length expression then
        let char = expression ! index in
        if inSingle fl then
          normalize_loop expression (index + 1)
            (if escaping fl then fl\<lparr>escaping := False\<rparr>
             else if char = backslash then fl\<lparr>escaping := True\<rparr>
             else if char = single_quote then fl\<lparr>inSingle := False\<rparr>
             else fl)
            (result @ [char])
        else if inDouble fl then
          normalize_loop expression (index + 1)
            (if escaping fl then fl\<lparr>escaping := False\<rparr>
             else if char = backslash then fl\<lparr>escaping := True\<rparr>
             else if char = dq then fl\<lparr>inDouble := False\<rparr>
             else fl)
            (result @ [char])
        else if inTemplate fl then
          normalize_loop expression (index + 1)
            (if escaping fl then fl\<lparr>escaping := False\<rparr>
             else if char = backslash then fl\<lparr>escaping := True\<rparr>
             else if char = backtick then fl\<lparr>inTemplate := False\<rparr>
             else fl)
            (result @ [char])
        else if char = single_quote then
          normalize_loop expression (index + 1) (fl\<lparr>inSingle := True\<rparr>) (result @ [char])
        else if char = dq then
          normalize_loop expression (index + 1) (fl\<lparr>inDouble := True\<rparr>) (result @ [char])
        else if char = backtick then
          normalize_loop expression (index + 1) (fl\<lparr>inTemplate := True\<rparr>) (result @ [char])
        else
          (case find_alias GLOBAL_FUNCTION_ALIASES expression index of
             Some (name, alias) \<Rightarrow>
               normalize_loop expression (index + length name) fl (result @ alias)
           | None \<Rightarrow>
               normalize_loop expression (index + 1) fl (result @ [char]))
      else result)"
  by pat_completeness auto
termination
  by (relation "measure (\<lambda>(expression, index, fl, result). length expression - index)")
     (auto intro: find_alias_progress)

declare normalize_loop.simps [simp del]

definition normalizeExpressionSource :: "string \<Rightarrow> string" where
  "normalizeExpressionSource expression =
     normalize_loop expression 0
       \<lparr>inSingle = False, inDouble = False, inTemplate = False, escaping = False\<rparr> []"

subsection \<open>The rewriting in the words of the specification\<close>

text \<open>
  Quoting, read off the text alone: the quote character that is open before a position,
  and whether the character at the position is escaped. Outside quotes one of the
  three quote characters opens a span; inside, a backslash escapes the next character
  and the unescaped opening character closes the span.
\<close>

fun quote_step :: "char option \<times> bool \<Rightarrow> char \<Rightarrow> char option \<times> bool" where
  "quote_step (None, esc) c =
     (if c = single_quote \<or> c = dq \<or> c = backtick then (Some c, False) else (None, False))"
| "quote_step (Some q, True) c = (Some q, False)"
| "quote_step (Some q, False) c =
     (if c = backslash then (Some q, True)
      else if c = q then (None, False)
      else (Some q, False))"

definition quote_state :: "string \<Rightarrow> nat \<Rightarrow> char option \<times> bool" where
  "quote_state expression i = foldl quote_step (None, False) (take i expression)"

definition outside_quotes :: "string \<Rightarrow> nat \<Rightarrow> bool" where
  "outside_quotes expression i = (fst (quote_state expression i) = None)"

definition next_non_space :: "string \<Rightarrow> nat \<Rightarrow> char option" where
  "next_non_space expression i =
     (case dropWhile is_space (drop i expression) of [] \<Rightarrow> None | c # cs \<Rightarrow> Some c)"

text \<open>The occurrence of the bare identifier \<open>name\<close> at position \<open>i\<close> is one that the
  rewriting replaces.\<close>

definition rewritable :: "string \<Rightarrow> nat \<Rightarrow> string \<Rightarrow> bool" where
  "rewritable expression i name =
     (outside_quotes expression i \<and>
      startsWith expression name i \<and>
      \<not> isIdentifierCharacter (char_before expression i) \<and>
      char_before expression i \<noteq> Some CHR ''.'' \<and>
      \<not> isIdentifierCharacter (char_at expression (i + length name)) \<and>
      next_non_space expression (i + length name) = Some CHR ''('')"

text \<open>Position \<open>i\<close> lies inside a replaced occurrence that starts before it.\<close>

definition covered :: "string \<Rightarrow> nat \<Rightarrow> bool" where
  "covered expression i =
     ((1 \<le> i \<and> rewritable expression (i - 1) ''if'') \<or>
      (1 \<le> i \<and> rewritable expression (i - 1) ''file'') \<or>
      (2 \<le> i \<and> rewritable expression (i - 2) ''file'') \<or>
      (3 \<le> i \<and> rewritable expression (i - 3) ''file''))"

text \<open>What the rewriting puts out for position \<open>i\<close>: the alias where a replaced
  occurrence starts, nothing for the further characters of that occurrence, and the
  character itself everywhere else.\<close>

definition emitted :: "string \<Rightarrow> nat \<Rightarrow> string" where
  "emitted expression i =
     (if rewritable expression i ''if'' then ''_if''
      else if rewritable expression i ''file'' then ''_fileFn''
      else if covered expression i then []
      else [expression ! i])"
section \<open>Verified properties\<close>

subsection \<open>Filter evaluation\<close>

lemma and_loop_Inr:
  "(\<And>m. m \<in> set es \<Longrightarrow> evaluateFilterNode m s (ctx @ '' (and)'') = Inr (f m)) \<Longrightarrow>
   and_loop es s ctx = Inr (\<forall>m \<in> set es. f m)"
  by (induction es) (auto split: bool.splits)

lemma or_loop_Inr:
  "(\<And>m. m \<in> set es \<Longrightarrow> evaluateFilterNode m s (ctx @ '' (or)'') = Inr (f m)) \<Longrightarrow>
   or_loop es s ctx = Inr (\<exists>m \<in> set es. f m)"
  by (induction es) (auto split: bool.splits)


lemma trim_all_space:
  assumes "\<forall>c\<in>set s. is_space c"
  shows "trim s = []"
proof -
  have d: "dropWhile is_space s = []"
    using assms by (simp only: dropWhile_eq_Nil_conv)
  show ?thesis unfolding trim_def d by simp
qed


lemma members_Some: "map_of c k = Some (YArr es) \<Longrightarrow> members c k = es"
  by (simp add: members_def)







text \<open>
  Claim C10. A string filter that is empty or consists of whitespace only makes
  \<open>matchesFilter\<close> return false, whatever the evaluation state: the evaluator of the
  state is not consulted, so nothing is parsed or evaluated and nothing is raised.
\<close>

theorem blank_filter_no_match:
  "\<forall>c \<in> set literal. is_space c \<Longrightarrow>
     matchesFilter (Some (YStr literal)) evaluation context = Inr False"
  by (simp add: evaluateFilterLiteral_def trim_all_space)

theorem blank_filter_no_match_witness:
  "matchesFilter (Some (YStr [CHR 0x20, CHR 0x09])) raising_state ''base filters'' = Inr False"
  using blank_filter_no_match [of "[CHR 0x20, CHR 0x09]" raising_state "''base filters''"]
  by (simp add: is_space_def)

lemma ensureFilterList_not_array:
  "\<forall>es. v \<noteq> YArr es \<Longrightarrow>
   ensureFilterList v d = Inl (JsError PlainError (d @ '' must be an array.'') None)"
  by (cases v) auto

lemma and_passes_cases:
  assumes "and_passes c s ctx"
  obtains "map_of c ''and'' = None"
  | es where "map_of c ''and'' = Some (YArr es)" and "and_loop es s ctx = Inr True"
proof (cases "map_of c ''and''")
  case None
  then show ?thesis using that by simp
next
  case (Some v)
  with assms obtain es where v: "v = YArr es"
    and m: "\<forall>m \<in> set es. evaluateFilterNode m s (ctx @ '' (and)'') = Inr True"
    by (cases v) (auto simp: and_passes_def)
  have "and_loop es s ctx = Inr (\<forall>m \<in> set es. (\<lambda>_. True) m)"
    by (rule and_loop_Inr) (use m in simp)
  then show ?thesis using that Some v by simp
qed

lemma or_passes_cases:
  assumes "or_passes c s ctx"
  obtains "map_of c ''or'' = None"
  | es where "map_of c ''or'' = Some (YArr es)" and "es \<noteq> []" and "or_loop es s ctx = Inr True"
proof (cases "map_of c ''or''")
  case None
  then show ?thesis using that by simp
next
  case (Some v)
  with assms obtain es where v: "v = YArr es"
    and r: "\<forall>m \<in> set es. \<not> isl (evaluateFilterNode m s (ctx @ '' (or)''))"
    and m: "\<exists>m \<in> set es. evaluateFilterNode m s (ctx @ '' (or)'') = Inr True"
    by (cases v) (auto simp: or_passes_def)
  have "or_loop es s ctx =
          Inr (\<exists>m \<in> set es. (\<lambda>m. evaluateFilterNode m s (ctx @ '' (or)'') = Inr True) m)"
  proof (rule or_loop_Inr)
    fix m assume "m \<in> set es"
    with r have "\<not> isl (evaluateFilterNode m s (ctx @ '' (or)''))" by blast
    then show "evaluateFilterNode m s (ctx @ '' (or)'') =
                 Inr (evaluateFilterNode m s (ctx @ '' (or)'') = Inr True)"
      by (cases "evaluateFilterNode m s (ctx @ '' (or)'')") auto
  qed
  moreover have "es \<noteq> []" using m by auto
  ultimately show ?thesis using that Some v m by simp
qed

text \<open>
  Claim C9, as the code has it. In a compound filter whose keys are among and, or, not,
  a group that is not an array makes \<open>matchesFilter\<close> raise
  \<^verbatim>\<open>Failed to process <context>\<close> caused by
  \<^verbatim>\<open><context> "<key>" group must be an array.\<close> as soon as the group is reached:
  always for the and group; for the or group when the and group is absent or all its
  members match; for the not group when moreover the or group is absent or has a
  matching member and no raising one.
\<close>

theorem non_array_group_raises:
  assumes "filterExpressionsValid c"
    and "map_of c k = Some v"
    and "\<forall>es. v \<noteq> YArr es"
    and "k = ''and'' \<or> (k = ''or'' \<and> and_passes c s ctx) \<or>
         (k = ''not'' \<and> and_passes c s ctx \<and> or_passes c s ctx)"
  shows "matchesFilter (Some (YObj c)) s ctx = Inl (not_array_failure ctx k)"
proof -
  note e = ensureFilterList_not_array [OF assms(3)]
  have "evaluateFilterNode (YObj c) s ctx =
          Inl (JsError PlainError (ctx @ '' '' @ quoted k @ '' group must be an array.'') None)"
    using assms(4)
  proof (elim disjE conjE)
    assume "k = ''and''"
    then show ?thesis using assms(1,2) e by simp
  next
    assume k: "k = ''or''" and a: "and_passes c s ctx"
    have og: "or_group c s ctx =
            Inl (JsError PlainError (ctx @ '' '' @ quoted k @ '' group must be an array.'') None)"
      using assms(2) e k by simp
    from a show ?thesis
      by (cases rule: and_passes_cases) (use og assms(1) in simp_all)
  next
    assume k: "k = ''not''" and a: "and_passes c s ctx" and o: "or_passes c s ctx"
    have n: "not_group c s ctx =
            Inl (JsError PlainError (ctx @ '' '' @ quoted k @ '' group must be an array.'') None)"
      using assms(2) e k by simp
    from o have og: "or_group c s ctx =
            Inl (JsError PlainError (ctx @ '' '' @ quoted k @ '' group must be an array.'') None)"
      by (cases rule: or_passes_cases) (use n in simp_all)
    from a show ?thesis
      by (cases rule: and_passes_cases) (use og assms(1) in simp_all)
  qed
  then show ?thesis by (simp add: not_array_failure_def)
qed

theorem non_array_group_raises_witness:
  "matchesFilter (Some (YObj [(''and'', YArr []), (''or'', YArr [YObj []]), (''not'', YObj [])])) raising_state ''base filters'' =
     Inl (not_array_failure ''base filters'' ''not'')"
  using non_array_group_raises [of "[(''and'', YArr []), (''or'', YArr [YObj []]), (''not'', YObj [])]"
      "''not''" "YObj []" raising_state "''base filters''"]
  by (simp add: filterExpressionsValid_def and_passes_def or_passes_def)

text \<open>
  The groups are checked lazily: once the and group has decided that the file does not
  match, an or group that is not an array goes unnoticed and nothing is raised.
\<close>

theorem non_array_or_group_counterexample:
  "matchesFilter (Some (YObj [(''and'', YArr [YObj [(''or'', YArr [])]]), (''or'', YObj [])]))
     raising_state ''base filters'' = Inr False"
  by (simp add: filterExpressionsValid_def)


subsection \<open>Durations, numbers and dates\<close>

text \<open>
  Claim C7 at the input \<^verbatim>\<open>5 minutes\<close>. The claim gives every multi-letter unit its table
  multiplier, so the result should be 300000. In the pattern the alternative \<^verbatim>\<open>M\<close>
  stands before \<^verbatim>\<open>minutes?\<close>, \<^verbatim>\<open>mins?\<close> and \<^verbatim>\<open>min\<close>, and under the flag \<^verbatim>\<open>i\<close> it
  matches the letter m: the unit found is \<^verbatim>\<open>m\<close>, and the rest of the word is rejected as
  trailing content.
\<close>

theorem parseDuration_minutes_rejected:
  "parseDuration ''5 minutes'' =
     Inl (JsError PlainError
       (''Invalid trailing content '' @ quoted ''inutes'' @ '' in '' @ quoted ''5 minutes'' @ ''.'')
       None)"
  by code_simp

text \<open>The single letters are told apart by case, and the other multi-letter units are
  found in either case.\<close>

lemma parseDuration_single_letters:
  "parseDuration ''5m'' = Inr 300000 \<and> parseDuration ''5M'' = Inr 12960000000"
  by code_simp

lemma parseDuration_multi_letter_units:
  "parseDuration ''2 sec'' = Inr 2000 \<and> parseDuration ''3 hours'' = Inr 10800000 \<and>
   parseDuration ''1.5 Days'' = Inr 129600000 \<and> parseDuration ''1 MONTH'' = Inr 2592000000"
  by code_simp

lemma parseDuration_sum_of_segments:
  "parseDuration ''2h 30m'' = Inr 9000000"
  by code_simp

lemma parseDuration_min_family_rejected:
  "isl (parseDuration ''5min'') \<and> isl (parseDuration ''5 mins'') \<and>
   isl (parseDuration ''5 minute'') \<and> isl (parseDuration ''5 MINUTES'')"
  by code_simp



lemma number_examples:
  "normalizeNumber (Str '' 42.5 '') = Inr (Fin (85 / 2)) \<and>
   normalizeNumber (Str '''') =
     Inl (JsError PlainError ''number() cannot parse an empty string.'' None)"
  by code_simp













subsection \<open>Scope construction\<close>

lemma map_of_assign: "map_of (assign key v scope) = (map_of scope)(key \<mapsto> v)"
  by (induction scope) (auto simp: fun_eq_iff)

lemma map_of_filter_key:
  "map_of (filter (\<lambda>(key, v). P key) entries) k = (if P k then map_of entries k else None)"
  by (induction entries) auto

text \<open>A loop that binds each entry whose key is eligible and not yet bound keeps what is
  bound and adds the first eligible entry of every other key.\<close>

lemma fill_lookup:
  "map_of (foldl (\<lambda>scope (key, v).
                    if \<not> hasScopeIdentifier scope key \<and> P key then assign key v scope else scope)
             scope entries) k =
   first_of (map_of scope k) (if P k then map_of entries k else None)"
proof (induction entries arbitrary: scope)
  case Nil
  then show ?case by (simp add: first_of_def split: option.splits)
next
  case (Cons e entries)
  obtain key v where e: "e = (key, v)" by (cases e)
  show ?case
    unfolding e using Cons.IH
    by (auto simp: first_of_def hasScopeIdentifier_def map_of_assign split: option.splits)
qed

lemma promote_lookup:
  "map_of (promote_frontmatter note (map fst createGlobalFunctionScope) scope) k =
   first_of (map_of scope k) (if promotable k then map_of note k else None)"
  unfolding promote_frontmatter_def promotable_def
  using fill_lookup [of "\<lambda>key. isValidIdentifier key \<and> key \<notin> set (map fst createGlobalFunctionScope)"]
  by simp

lemma builtins_lookup:
  "map_of (bind_builtins scope) k = first_of (map_of scope k) (map_of BUILTIN_SCOPE_ENTRIES k)"
  unfolding bind_builtins_def
  using fill_lookup [of "\<lambda>key. True" scope BUILTIN_SCOPE_ENTRIES k]
  by simp

lemma globals_step:
  "(\<lambda>scope (key, v).
       let scope1 = (if \<not> hasScopeIdentifier scope key then assign key v scope else scope)
       in case map_of GLOBAL_FUNCTION_ALIASES key of
            None \<Rightarrow> scope1
          | Some alias \<Rightarrow>
              if \<not> hasScopeIdentifier scope1 alias then assign alias v scope1 else scope1) =
   (\<lambda>scope e.
       foldl (\<lambda>scope (key, v). if \<not> hasScopeIdentifier scope key \<and> True then assign key v scope else scope)
         scope
         ((\<lambda>(key, v). (key, v) # (case map_of GLOBAL_FUNCTION_ALIASES key of
                                        None \<Rightarrow> []
                                      | Some alias \<Rightarrow> [(alias, v)])) e))"
  by (auto simp: fun_eq_iff Let_def split: option.splits)

lemma foldl_concat_map:
  "foldl g a (concat (map h xs)) = foldl (\<lambda>b x. foldl g b (h x)) a xs"
  by (induction xs arbitrary: a) simp_all

lemma globals_lookup:
  "map_of (bind_global_functions createGlobalFunctionScope scope) k =
   first_of (map_of scope k) (map_of global_entries k)"
proof -
  have "bind_global_functions createGlobalFunctionScope scope =
          foldl (\<lambda>scope (key, v). if \<not> hasScopeIdentifier scope key \<and> True then assign key v scope else scope)
            scope global_entries"
    unfolding bind_global_functions_def global_entries_def globals_step foldl_concat_map ..
  then show ?thesis
    using fill_lookup [of "\<lambda>key. True" scope global_entries k] by simp
qed

lemma fixed_lookup:
  "map_of (assign ''properties'' p (assign ''note'' n (assign ''metadata'' m
      (assign ''frontmatter'' f (assign ''file'' x []))))) k =
   map_of [(''file'', x), (''frontmatter'', f), (''metadata'', m), (''note'', n), (''properties'', p)] k"
  by simp

lemma first_of_assoc: "first_of (first_of a b) c = first_of a (first_of b c)"
  by (simp add: first_of_def split: option.splits)

lemma scope_lookup:
  "map_of (build_scope file) k =
     (if k = ''formula'' then Some FormulaProxy
      else first_of (map_of (fixed_entries file) k)
             (first_of (if promotable k then map_of (or_empty (frontmatter file)) k else None)
               (first_of (map_of global_entries k) (map_of BUILTIN_SCOPE_ENTRIES k))))"
  unfolding build_scope_def Let_def map_of_assign [of "''formula''"] builtins_lookup
    globals_lookup promote_lookup fixed_lookup fixed_entries_def first_of_assoc
  by simp

lemma builtin_names_promotable:
  assumes "map_of BUILTIN_SCOPE_ENTRIES k \<noteq> None"
  shows "promotable k" and "map_of (fixed_entries file) k = None" and "k \<noteq> ''formula''"
proof -
  from assms have "k \<in> set (map fst BUILTIN_SCOPE_ENTRIES)"
    by (metis map_of_eq_None_iff set_map)
  then have k: "k \<in> {''Array'', ''Boolean'', ''Date'', ''JSON'', ''Map'', ''Math'', ''Number'',
      ''Object'', ''Reflect'', ''RegExp'', ''Set'', ''String'', ''Symbol'', ''WeakMap'',
      ''WeakSet'', ''BigInt''}"
    by (simp add: BUILTIN_SCOPE_ENTRIES_def)
  show "promotable k"
    using k
    by (auto simp: promotable_def isValidIdentifier_def IDENTIFIER_PATTERN_def
        identifier_start_def identifier_char_def is_upper_def is_lower_def is_digit_def
        RESERVED_IDENTIFIERS_def createGlobalFunctionScope_def)
  show "map_of (fixed_entries file) k = None"
    using k by (auto simp: fixed_entries_def)
  show "k \<noteq> ''formula''"
    using k by auto
qed

text \<open>
  Claim C5, as the code has it. The names of the scope are bound in this order, an
  earlier binding winning: file, frontmatter, metadata, note, properties; then the
  promoted frontmatter identifiers (valid identifier, not reserved, not the name of a
  global function); then the global functions and their aliases; then the built-in
  namespaces; only the name formula is bound unconditionally at the end. In particular
  a frontmatter key equal to the name of a built-in namespace is promoted, and the
  identifier evaluates to the frontmatter value, not to the host namespace.
\<close>

theorem scope_precedence:
  "map_of (build_scope file) k =
     (if k = ''formula'' then Some FormulaProxy
      else first_of (map_of (fixed_entries file) k)
             (first_of (if promotable k then map_of (or_empty (frontmatter file)) k else None)
               (first_of (map_of global_entries k) (map_of BUILTIN_SCOPE_ENTRIES k)))) \<and>
   (map_of BUILTIN_SCOPE_ENTRIES k \<noteq> None \<longrightarrow>
    map_of (or_empty (frontmatter file)) k = Some v \<longrightarrow>
      evaluateIdentifier k (build_scope file) = Inr v)"
proof (intro conjI impI)
  show "map_of (build_scope file) k =
     (if k = ''formula'' then Some FormulaProxy
      else first_of (map_of (fixed_entries file) k)
             (first_of (if promotable k then map_of (or_empty (frontmatter file)) k else None)
               (first_of (map_of global_entries k) (map_of BUILTIN_SCOPE_ENTRIES k))))"
    by (rule scope_lookup)
next
  assume b: "map_of BUILTIN_SCOPE_ENTRIES k \<noteq> None"
    and f: "map_of (or_empty (frontmatter file)) k = Some v"
  have "map_of (build_scope file) k = Some v"
    unfolding scope_lookup
    using builtin_names_promotable(1,3) [OF b] builtin_names_promotable(2) [OF b] f
    by (simp add: first_of_def)
  then show "evaluateIdentifier k (build_scope file) = Inr v"
    by (simp add: evaluateIdentifier_def hasScopeIdentifier_def)
qed

theorem scope_precedence_witness:
  "evaluateIdentifier ''Math'' (build_scope math_file) = Inr (Str ''algebra'')"
proof -
  have "map_of BUILTIN_SCOPE_ENTRIES ''Math'' \<noteq> None"
    by (simp add: BUILTIN_SCOPE_ENTRIES_def)
  moreover have "map_of (or_empty (frontmatter math_file)) ''Math'' = Some (Str ''algebra'')"
    by (simp add: math_file_def or_empty_def)
  ultimately show ?thesis
    using scope_precedence [of math_file "''Math''" "Str ''algebra''"] by blast
qed

text \<open>A note whose frontmatter has the key \<^verbatim>\<open>Date\<close>: the identifier \<^verbatim>\<open>Date\<close> is the
  frontmatter value 5, and the host namespace is out of reach.\<close>

theorem builtin_shadowed_counterexample:
  "map_of (build_scope date_file) ''Date'' = Some (Num (Fin 5)) \<and>
   map_of (build_scope date_file) ''Date'' \<noteq> Some (Host ''Date'')"
  by code_simp

subsection \<open>Source rewriting\<close>

text \<open>The flags of the scanner that stand for a quoting state.\<close>

definition flags_of :: "char option \<times> bool \<Rightarrow> scan_flags" where
  "flags_of st =
     \<lparr>inSingle = (fst st = Some single_quote), inDouble = (fst st = Some dq),
      inTemplate = (fst st = Some backtick), escaping = snd st\<rparr>"

lemma quote_state_Suc:
  "i < length e \<Longrightarrow> quote_state e (Suc i) = quote_step (quote_state e i) (e ! i)"
  by (simp add: quote_state_def take_Suc_conv_app_nth)

lemma quote_fold_outside:
  "fst (foldl quote_step (None, False) xs) = None \<Longrightarrow>
   foldl quote_step (None, False) xs = (None, False)"
proof (induction xs rule: rev_induct)
  case Nil
  then show ?case by simp
next
  case (snoc x xs)
  obtain q b where s: "foldl quote_step (None, False) xs = (q, b)"
    by (cases "foldl quote_step (None, False) xs")
  with snoc.prems show ?case
    by (cases q; cases b) (auto split: if_splits)
qed

lemma outside_state:
  "outside_quotes e i \<Longrightarrow> quote_state e i = (None, False)"
  unfolding outside_quotes_def quote_state_def by (rule quote_fold_outside)

lemma startsWith_nth:
  assumes "startsWith e name i" and "k < length name"
  shows "i + k < length e" and "e ! (i + k) = name ! k"
proof -
  from assms(1) have t: "take (length name) (drop i e) = name"
    by (simp add: startsWith_def)
  then have "length (take (length name) (drop i e)) = length name" by simp
  then have l: "length name \<le> length e - i" by simp
  with assms(2) show b: "i + k < length e" by linarith
  have "name ! k = take (length name) (drop i e) ! k" using t by simp
  also have "\<dots> = drop i e ! k" using assms(2) by simp
  also have "\<dots> = e ! (i + k)" using b by simp
  finally show "e ! (i + k) = name ! k" by simp
qed

lemma skip_space_next:
  "char_at e (skip_space e j) = next_non_space e j"
proof (induction e j rule: skip_space.induct)
  case (1 e j)
  show ?case
  proof (cases "j < length e")
    case True
    then have d: "drop j e = e ! j # drop (Suc j) e"
      by (simp add: Cons_nth_drop_Suc)
    show ?thesis
    proof (cases "is_space (e ! j)")
      case sp: True
      with True 1 have "char_at e (skip_space e (j + 1)) = next_non_space e (j + 1)" by simp
      moreover have "skip_space e j = skip_space e (j + 1)"
        using True sp by (subst skip_space.simps) simp
      moreover have "next_non_space e j = next_non_space e (j + 1)"
        using sp by (simp add: next_non_space_def d)
      ultimately show ?thesis by simp
    next
      case False
      then have "skip_space e j = j" by (subst skip_space.simps) simp
      with True False show ?thesis
        by (simp add: next_non_space_def d char_at_def)
    qed
  next
    case False
    then have "skip_space e j = j" by (subst skip_space.simps) simp
    with False show ?thesis by (simp add: next_non_space_def char_at_def)
  qed
qed

lemma find_alias_outside:
  assumes "outside_quotes e i"
  shows "find_alias GLOBAL_FUNCTION_ALIASES e i =
           (if rewritable e i ''if'' then Some (''if'', ''_if'')
            else if rewritable e i ''file'' then Some (''file'', ''_fileFn'')
            else None)"
  using assms
  by (simp add: GLOBAL_FUNCTION_ALIASES_def rewritable_def skip_space_next Let_def)

lemma not_rewritable_after_identifier:
  assumes "0 < j" and "j - 1 < length e" and "identifier_char (e ! (j - 1))"
  shows "\<not> rewritable e j name"
  using assms by (simp add: rewritable_def char_before_def char_at_def)

lemma not_rewritable_inside:
  "\<not> outside_quotes e i \<Longrightarrow> \<not> rewritable e i name"
  by (simp add: rewritable_def)

lemma rewritable_head:
  assumes "rewritable e i name" and "name = ''if'' \<or> name = ''file''"
  shows "e ! i = CHR ''i'' \<or> e ! i = CHR ''f''"
proof -
  from assms(1) have s: "startsWith e name i" by (simp add: rewritable_def)
  from assms(2) have "0 < length name" by auto
  from startsWith_nth(2) [OF s this] assms(2) show ?thesis by auto
qed

lemma covered_Suc:
  assumes "\<not> covered e i" and "\<not> rewritable e i ''if''" and "\<not> rewritable e i ''file''"
  shows "\<not> covered e (Suc i)"
proof -
  have "Suc i - 2 = i - 1" "Suc i - 3 = i - 2" by simp_all
  moreover have "2 \<le> Suc i \<longleftrightarrow> 1 \<le> i" "3 \<le> Suc i \<longleftrightarrow> 2 \<le> i" by auto
  ultimately show ?thesis
    using assms unfolding covered_def by simp
qed

lemma emitted_plain:
  assumes "\<not> covered e i" and "\<not> rewritable e i ''if''" and "\<not> rewritable e i ''file''"
  shows "emitted e i = [e ! i]"
  using assms by (simp add: emitted_def)

lemma upt_head: "i < n \<Longrightarrow> [i..<n] = i # [Suc i..<n]"
  by (rule upt_conv_Cons)

lemma identifier_letters:
  "identifier_char CHR ''i''" "identifier_char CHR ''f''" "identifier_char CHR ''l''"
  "identifier_char CHR ''e''"
  by (simp_all add: identifier_char_def is_lower_def)

text \<open>A replaced \<^verbatim>\<open>if\<close>: two positions are consumed, the second one puts out nothing, and
  the scanner is outside quotes and outside every replaced occurrence afterwards.\<close>

lemma replaced_if:
  assumes r: "rewritable e i ''if''" and nc: "\<not> covered e i"
  shows "i + 2 \<le> length e"
    and "concat (map (emitted e) [i..<length e]) =
           ''_if'' @ concat (map (emitted e) [i + 2..<length e])"
    and "quote_state e (i + 2) = (None, False)"
    and "\<not> covered e (i + 2)"
proof -
  from r have s: "startsWith e ''if'' i" and o: "outside_quotes e i"
    by (simp_all add: rewritable_def)
  have n0: "i < length e" "e ! i = CHR ''i''"
    using startsWith_nth [OF s, of 0] by simp_all
  have n1: "Suc i < length e" "e ! Suc i = CHR ''f''"
    using startsWith_nth [OF s, of 1] by simp_all
  show "i + 2 \<le> length e" using n1 by simp
  have nr1: "\<not> rewritable e (Suc i) name" for name
    using not_rewritable_after_identifier [of "Suc i" e name] n0 identifier_letters by simp
  have nr2: "\<not> rewritable e (Suc (Suc i)) name" for name
    using not_rewritable_after_identifier [of "Suc (Suc i)" e name] n1 identifier_letters by simp
  have nf: "\<not> rewritable e i ''file''"
  proof
    assume "rewritable e i ''file''"
    then have "startsWith e ''file'' i" by (simp add: rewritable_def)
    from startsWith_nth(2) [OF this, of 1] n1 show False by simp
  qed
  have e0: "emitted e i = ''_if''" using r by (simp add: emitted_def)
  have e1: "emitted e (Suc i) = []"
    using nr1 r by (simp add: emitted_def covered_def)
  show "concat (map (emitted e) [i..<length e]) =
           ''_if'' @ concat (map (emitted e) [i + 2..<length e])"
    using upt_head [OF n0(1)] upt_head [OF n1(1)] e0 e1 by simp
  have q1: "quote_state e (Suc i) = (None, False)"
    using quote_state_Suc [OF n0(1)] outside_state [OF o] n0(2)
    by (simp add: single_quote_def dq_def backtick_def)
  have "quote_state e (Suc (Suc i)) = (None, False)"
    using quote_state_Suc [OF n1(1)] q1 n1(2)
    by (simp add: single_quote_def dq_def backtick_def)
  then show "quote_state e (i + 2) = (None, False)" by simp
  have "\<not> covered e (Suc (Suc i))"
    using nr1 nf nc unfolding covered_def
    by (auto simp: numeral_2_eq_2 numeral_3_eq_3)
  then show "\<not> covered e (i + 2)" by simp
qed

lemma replaced_file:
  assumes r: "rewritable e i ''file''" and nc: "\<not> covered e i"
  shows "i + 4 \<le> length e"
    and "concat (map (emitted e) [i..<length e]) =
           ''_fileFn'' @ concat (map (emitted e) [i + 4..<length e])"
    and "quote_state e (i + 4) = (None, False)"
    and "\<not> covered e (i + 4)"
proof -
  from r have s: "startsWith e ''file'' i" and o: "outside_quotes e i"
    by (simp_all add: rewritable_def)
  have n0: "i < length e" "e ! i = CHR ''f''"
    using startsWith_nth [OF s, of 0] by simp_all
  have n1: "Suc i < length e" "e ! Suc i = CHR ''i''"
    using startsWith_nth [OF s, of 1] by simp_all
  have n2: "Suc (Suc i) < length e" "e ! Suc (Suc i) = CHR ''l''"
    using startsWith_nth [OF s, of 2] by (simp_all add: numeral_2_eq_2)
  have n3: "Suc (Suc (Suc i)) < length e" "e ! Suc (Suc (Suc i)) = CHR ''e''"
    using startsWith_nth [OF s, of 3] by (simp_all add: numeral_3_eq_3)
  have a4: "i + 4 = Suc (Suc (Suc (Suc i)))" by simp
  show "i + 4 \<le> length e" using n3 by simp
  have nr1: "\<not> rewritable e (Suc i) name" for name
    using not_rewritable_after_identifier [of "Suc i" e name] n0 identifier_letters by simp
  have nr2: "\<not> rewritable e (Suc (Suc i)) name" for name
    using not_rewritable_after_identifier [of "Suc (Suc i)" e name] n1 identifier_letters by simp
  have nr3: "\<not> rewritable e (Suc (Suc (Suc i))) name" for name
    using not_rewritable_after_identifier [of "Suc (Suc (Suc i))" e name] n2 identifier_letters
    by simp
  have nr4: "\<not> rewritable e (Suc (Suc (Suc (Suc i)))) name" for name
    using not_rewritable_after_identifier [of "Suc (Suc (Suc (Suc i)))" e name] n3
      identifier_letters by simp
  have ni: "\<not> rewritable e i ''if''"
  proof
    assume "rewritable e i ''if''"
    then have "startsWith e ''if'' i" by (simp add: rewritable_def)
    from startsWith_nth(2) [OF this, of 0] n0 show False by simp
  qed
  have e0: "emitted e i = ''_fileFn''" using r ni by (simp add: emitted_def)
  have e1: "emitted e (Suc i) = []"
    using nr1 r by (simp add: emitted_def covered_def)
  have e2: "emitted e (Suc (Suc i)) = []"
    using nr2 r by (simp add: emitted_def covered_def)
  have e3: "emitted e (Suc (Suc (Suc i))) = []"
    using nr3 r by (simp add: emitted_def covered_def numeral_3_eq_3)
  show "concat (map (emitted e) [i..<length e]) =
           ''_fileFn'' @ concat (map (emitted e) [i + 4..<length e])"
    unfolding a4
    using upt_head [OF n0(1)] upt_head [OF n1(1)] upt_head [OF n2(1)] upt_head [OF n3(1)]
      e0 e1 e2 e3 by simp
  have q1: "quote_state e (Suc i) = (None, False)"
    using quote_state_Suc [OF n0(1)] outside_state [OF o] n0(2)
    by (simp add: single_quote_def dq_def backtick_def)
  have q2: "quote_state e (Suc (Suc i)) = (None, False)"
    using quote_state_Suc [OF n1(1)] q1 n1(2)
    by (simp add: single_quote_def dq_def backtick_def)
  have q3: "quote_state e (Suc (Suc (Suc i))) = (None, False)"
    using quote_state_Suc [OF n2(1)] q2 n2(2)
    by (simp add: single_quote_def dq_def backtick_def)
  have "quote_state e (Suc (Suc (Suc (Suc i)))) = (None, False)"
    using quote_state_Suc [OF n3(1)] q3 n3(2)
    by (simp add: single_quote_def dq_def backtick_def)
  then show "quote_state e (i + 4) = (None, False)" unfolding a4 .
  have "\<not> covered e (Suc (Suc (Suc (Suc i))))"
    using nr1 nr2 nr3 unfolding covered_def
    by (auto simp: numeral_2_eq_2 numeral_3_eq_3)
  then show "\<not> covered e (i + 4)" unfolding a4 .
qed

lemma quote_fold_domain:
  "fst (foldl quote_step (None, False) xs) = Some q \<Longrightarrow>
   q = single_quote \<or> q = dq \<or> q = backtick"
proof (induction xs arbitrary: q rule: rev_induct)
  case Nil
  then show ?case by simp
next
  case (snoc x xs)
  obtain p b where s: "foldl quote_step (None, False) xs = (p, b)"
    by (cases "foldl quote_step (None, False) xs")
  show ?case
  proof (cases p)
    case None
    with snoc.prems s show ?thesis by (auto split: if_splits)
  next
    case (Some r)
    with snoc.IH [of r] s have "r = single_quote \<or> r = dq \<or> r = backtick" by simp
    with snoc.prems s Some show ?thesis by (cases b) (auto split: if_splits)
  qed
qed

lemma quote_chars_distinct:
  "single_quote \<noteq> dq" "single_quote \<noteq> backtick" "dq \<noteq> backtick"
  "backslash \<noteq> single_quote" "backslash \<noteq> dq" "backslash \<noteq> backtick"
  by (simp_all add: single_quote_def dq_def backtick_def backslash_def)

lemma inside_step:
  assumes "i < length e" and "q = single_quote \<or> q = dq \<or> q = backtick"
  shows "normalize_loop e i (flags_of (Some q, b)) res =
         normalize_loop e (Suc i) (flags_of (quote_step (Some q, b) (e ! i))) (res @ [e ! i])"
  using assms quote_chars_distinct
  by (subst normalize_loop.simps) (cases b; auto simp: flags_of_def Let_def)

lemma outside_quote_step:
  assumes "i < length e" and "e ! i = single_quote \<or> e ! i = dq \<or> e ! i = backtick"
  shows "normalize_loop e i (flags_of (None, False)) res =
         normalize_loop e (Suc i) (flags_of (quote_step (None, False) (e ! i))) (res @ [e ! i])"
  using assms quote_chars_distinct
  by (subst normalize_loop.simps) (auto simp: flags_of_def Let_def)

lemma outside_plain_step:
  assumes "i < length e" and "e ! i \<noteq> single_quote" and "e ! i \<noteq> dq" and "e ! i \<noteq> backtick"
  shows "normalize_loop e i (flags_of (None, False)) res =
         (case find_alias GLOBAL_FUNCTION_ALIASES e i of
            Some (name, alias) \<Rightarrow>
              normalize_loop e (i + length name) (flags_of (None, False)) (res @ alias)
          | None \<Rightarrow> normalize_loop e (i + 1) (flags_of (None, False)) (res @ [e ! i]))"
  using assms
  by (subst normalize_loop.simps) (simp add: flags_of_def Let_def)

lemma loop_emitted:
  "\<not> covered e i \<Longrightarrow> i \<le> length e \<Longrightarrow>
   normalize_loop e i (flags_of (quote_state e i)) res =
     res @ concat (map (emitted e) [i..<length e])"
proof (induction "length e - i" arbitrary: i res rule: less_induct)
  case less
  show ?case
  proof (cases "i < length e")
    case False
    with less.prems have "i = length e" by simp
    then show ?thesis by (subst normalize_loop.simps) simp
  next
    case True
    obtain p b where st: "quote_state e i = (p, b)" by (cases "quote_state e i")
    have next_plain: "normalize_loop e (Suc i) (flags_of (quote_state e (Suc i))) (res @ [e ! i]) =
                        res @ concat (map (emitted e) [i..<length e])"
      if nr: "\<not> rewritable e i ''if''" "\<not> rewritable e i ''file''"
    proof -
      have "\<not> covered e (Suc i)" using covered_Suc [OF less.prems(1) nr] .
      moreover have "length e - Suc i < length e - i" using True by simp
      moreover have "Suc i \<le> length e" using True by simp
      ultimately have "normalize_loop e (Suc i) (flags_of (quote_state e (Suc i))) (res @ [e ! i]) =
                         (res @ [e ! i]) @ concat (map (emitted e) [Suc i..<length e])"
        using less.hyps by blast
      then show ?thesis
        using upt_head [OF True] emitted_plain [OF less.prems(1) nr] by simp
    qed
    show ?thesis
    proof (cases p)
      case (Some q)
      have dom: "q = single_quote \<or> q = dq \<or> q = backtick"
        using quote_fold_domain [of "take i e" q] st Some by (simp add: quote_state_def)
      have "\<not> outside_quotes e i" using st Some by (simp add: outside_quotes_def)
      then have nr: "\<not> rewritable e i ''if''" "\<not> rewritable e i ''file''"
        by (simp_all add: not_rewritable_inside)
      show ?thesis
        unfolding st Some inside_step [OF True dom]
        using next_plain [OF nr] quote_state_Suc [OF True] st Some by simp
    next
      case None
      have o: "outside_quotes e i" using st None by (simp add: outside_quotes_def)
      have st': "quote_state e i = (None, False)" using outside_state [OF o] .
      show ?thesis
      proof (cases "e ! i = single_quote \<or> e ! i = dq \<or> e ! i = backtick")
        case qc: True
        have nr: "\<not> rewritable e i ''if''" "\<not> rewritable e i ''file''"
          using rewritable_head [of e i "''if''"] rewritable_head [of e i "''file''"] qc
          by (auto simp: single_quote_def dq_def backtick_def)
        show ?thesis
          unfolding st' outside_quote_step [OF True qc]
          using next_plain [OF nr] quote_state_Suc [OF True] st' by simp
      next
        case nq: False
        then have n: "e ! i \<noteq> single_quote" "e ! i \<noteq> dq" "e ! i \<noteq> backtick" by simp_all
        note plain = outside_plain_step [OF True n]
        consider (rif) "rewritable e i ''if''"
          | (rfile) "\<not> rewritable e i ''if''" "rewritable e i ''file''"
          | (none) "\<not> rewritable e i ''if''" "\<not> rewritable e i ''file''"
          by blast
        then show ?thesis
        proof cases
          case rif
          note r = replaced_if [OF rif less.prems(1)]
          have fa: "find_alias GLOBAL_FUNCTION_ALIASES e i = Some (''if'', ''_if'')"
            using find_alias_outside [OF o] rif by simp
          have lt: "length e - (i + 2) < length e - i" using True r(1) by linarith
          have l2: "length ''if'' = 2" by simp
          have "normalize_loop e i (flags_of (None, False)) res =
                  normalize_loop e (i + length ''if'') (flags_of (None, False)) (res @ ''_if'')"
            unfolding plain fa by (simp only: option.case prod.case)
          also have "\<dots> = normalize_loop e (i + 2) (flags_of (quote_state e (i + 2))) (res @ ''_if'')"
            by (simp only: l2 r(3))
          also have "\<dots> = (res @ ''_if'') @ concat (map (emitted e) [i + 2..<length e])"
            using less.hyps [OF lt r(4) r(1)] .
          also have "\<dots> = res @ concat (map (emitted e) [i..<length e])"
            using r(2) by simp
          finally show ?thesis unfolding st' .
        next
          case rfile
          note r = replaced_file [OF rfile(2) less.prems(1)]
          have fa: "find_alias GLOBAL_FUNCTION_ALIASES e i = Some (''file'', ''_fileFn'')"
            using find_alias_outside [OF o] rfile by simp
          have lt: "length e - (i + 4) < length e - i" using True r(1) by linarith
          have l4: "length ''file'' = 4" by simp
          have "normalize_loop e i (flags_of (None, False)) res =
                  normalize_loop e (i + length ''file'') (flags_of (None, False)) (res @ ''_fileFn'')"
            unfolding plain fa by (simp only: option.case prod.case)
          also have "\<dots> = normalize_loop e (i + 4) (flags_of (quote_state e (i + 4))) (res @ ''_fileFn'')"
            by (simp only: l4 r(3))
          also have "\<dots> = (res @ ''_fileFn'') @ concat (map (emitted e) [i + 4..<length e])"
            using less.hyps [OF lt r(4) r(1)] .
          also have "\<dots> = res @ concat (map (emitted e) [i..<length e])"
            using r(2) by simp
          finally show ?thesis unfolding st' .
        next
          case none
          have "quote_state e (Suc i) = (None, False)"
            using quote_state_Suc [OF True] st' n by simp
          then show ?thesis
            unfolding st' plain find_alias_outside [OF o]
            using none next_plain [OF none] by simp
        qed
      qed
    qed
  qed
qed

text \<open>
  Claim C8. The rewriting puts out, position by position: the alias \<^verbatim>\<open>_if\<close>
  (respectively \<^verbatim>\<open>_fileFn\<close>) exactly where an occurrence of \<^verbatim>\<open>if\<close> (respectively
  \<^verbatim>\<open>file\<close>) starts that lies outside the quoted spans, is not preceded by an identifier
  character or a dot, is not followed by an identifier character and has an opening
  parenthesis as its next character that is not whitespace; nothing for the remaining
  characters of such an occurrence; and every other character unchanged, among them
  everything inside quoted spans and a member access such as \<^verbatim>\<open>file.name\<close>.
\<close>

theorem normalizeExpressionSource_emitted:
  "normalizeExpressionSource expression =
     concat (map (emitted expression) [0..<length expression])"
proof -
  have "\<not> covered expression 0" by (simp add: covered_def)
  moreover have "flags_of (quote_state expression 0) =
      \<lparr>inSingle = False, inDouble = False, inTemplate = False, escaping = False\<rparr>"
    by (simp add: flags_of_def quote_state_def)
  ultimately show ?thesis
    using loop_emitted [of expression 0 "[]"] by (simp add: normalizeExpressionSource_def)
qed

lemma emitted_example:
  "concat (map (emitted ''if(a, 'if(b)', file (c).path, file.name)'')
     [0..<length ''if(a, 'if(b)', file (c).path, file.name)'']) =
   ''_if(a, 'if(b)', _fileFn (c).path, file.name)''"
  by code_simp

theorem normalizeExpressionSource_emitted_witness:
  "normalizeExpressionSource ''if(a, 'if(b)', file (c).path, file.name)'' =
     ''_if(a, 'if(b)', _fileFn (c).path, file.name)''"
  using normalizeExpressionSource_emitted [of "''if(a, 'if(b)', file (c).path, file.name)''"]
  by (simp only: emitted_example)
end
